theory Spec2Isabelle
  imports Main
begin

section \<open>JavaScript values and exceptions\<close>

text \<open>
  The source is \<^verbatim>\<open>lib/browser/api/browser-window.js\<close>. JavaScript values are kept as
  small as the file needs them: the primitives and an object reference. An exception
  is a value of \<open>error\<close>; a call that may throw returns \<open>error + 'a\<close>.
\<close>

datatype jsval = Undefined | Null | JBool bool | JNum int | JStr string | JObj nat

datatype error = TypeError | NativeError string

text \<open>Truthiness, as \<^verbatim>\<open>if\<close>, \<^verbatim>\<open>&&\<close> and \<^verbatim>\<open>||\<close> test it.\<close>

fun truthy :: "jsval \<Rightarrow> bool" where
  "truthy Undefined = False"
| "truthy Null = False"
| "truthy (JBool b) = b"
| "truthy (JNum n) = (n \<noteq> 0)"
| "truthy (JStr s) = (s \<noteq> [])"
| "truthy (JObj _) = True"

text \<open>A plain object literal: its own enumerable properties.\<close>

type_synonym jsobj = "string \<rightharpoonup> jsval"

text \<open>
  Object spread \<^verbatim>\<open>{ ...a, ...b }\<close>: the own properties of \<open>a\<close>, then those of \<open>b\<close>
  written over them.
\<close>

definition spread :: "jsobj \<Rightarrow> jsobj \<Rightarrow> jsobj" where
  "spread a b = a ++ b"

section \<open>The content surface (webContents)\<close>

text \<open>
  The listener this file registers on the content surface (lines 36-38):
  \<^verbatim>\<open>function () { this.focus(); }\<close>. It is an ordinary function, so \<^verbatim>\<open>this\<close> is
  the emitter it is called on, the content surface.
\<close>

datatype wc_handler = FocusThis

text \<open>
  The content surface is native. What this file reads of it: its identity (compared by
  \<^verbatim>\<open>equal\<close>), its \<^verbatim>\<open>devToolsWebContents\<close> property, its event-emitter side
  (\<^verbatim>\<open>once\<close>, \<^verbatim>\<open>emit\<close>), \<^verbatim>\<open>focus()\<close>, and the operations the helpers delegate to.
  The native operations are not in this file: \<open>invoke\<close> gives, for a method name and an
  argument list, what the content surface returns (\<open>Inr\<close>) or throws (\<open>Inl\<close>).
\<close>

record webContents =
  wc_id :: nat
  devToolsWebContents :: jsval
  invoke :: "string \<Rightarrow> jsval list \<Rightarrow> error + jsval"
  wc_listeners :: "(string \<times> bool \<times> wc_handler) list"
  wc_emitted :: "(string \<times> jsval list) list"
  focus_calls :: nat

text \<open>Modelled from the spec: content-surface identity equality (the native \<^verbatim>\<open>equal\<close>).\<close>

definition equal_wc :: "webContents \<Rightarrow> webContents \<Rightarrow> bool" where
  "equal_wc a b = (wc_id a = wc_id b)"

text \<open>The native \<^verbatim>\<open>focus()\<close> of the content surface: counted.\<close>

definition focus_wc :: "webContents \<Rightarrow> webContents" where
  "focus_wc wc = wc\<lparr>focus_calls := Suc (focus_calls wc)\<rparr>"

fun run_wc_handler :: "wc_handler \<Rightarrow> webContents \<Rightarrow> webContents" where
  "run_wc_handler FocusThis wc = focus_wc wc"

text \<open>
  Node's event emitter. \<^verbatim>\<open>once(name, l)\<close> appends a listener flagged one-shot.
  \<^verbatim>\<open>emit(name, ...args)\<close> calls the listeners registered for \<open>name\<close> in
  registration order; a one-shot listener is removed before it is called. The emission
  itself is recorded in \<open>wc_emitted\<close>.
\<close>

definition once_wc :: "string \<Rightarrow> wc_handler \<Rightarrow> webContents \<Rightarrow> webContents" where
  "once_wc name h wc = wc\<lparr>wc_listeners := wc_listeners wc @ [(name, True, h)]\<rparr>"

definition emit_wc :: "string \<Rightarrow> jsval list \<Rightarrow> webContents \<Rightarrow> webContents" where
  "emit_wc name args wc =
     (let called = filter (\<lambda>(n, _, _). n = name) (wc_listeners wc);
          kept = filter (\<lambda>(n, one_shot, _). \<not> (n = name \<and> one_shot)) (wc_listeners wc);
          wc1 = wc\<lparr>wc_listeners := kept, wc_emitted := wc_emitted wc @ [(name, args)]\<rparr>
      in fold (\<lambda>(_, _, h). run_wc_handler h) called wc1)"

section \<open>The window\<close>

text \<open>
  The handlers \<^verbatim>\<open>_init\<close> registers on the window itself: the two arrow functions
  that redirect blur and focus to the app (lines 41-46) and \<^verbatim>\<open>visibilityChanged\<close>.
\<close>

datatype win_handler = BlurToApp | FocusToApp | VisibilityChanged

text \<open>Functions stored in property descriptors: the getter of line 71, or any other.\<close>

datatype getter = GetDevToolsWebContents | GetConst jsval
datatype setter = SetIgnored nat

text \<open>An own property of an object: a data property or an accessor property.\<close>

datatype property =
    Data jsval bool bool bool
  | Accessor "getter option" "setter option" bool bool

text \<open>
  A window object. The \<open>nat_\<close> fields are the native state, read only through the
  native methods below; \<open>webContents\<close> is the native property, which the source itself
  tests for absence (line 176). The remaining fields are what \<^verbatim>\<open>_init\<close> creates:
  the closure variable \<^verbatim>\<open>isVisible\<close>, the listeners of the window, the own
  properties defined on it, and the traces of \<^verbatim>\<open>app.emit\<close> and of the native
  \<^verbatim>\<open>setBounds\<close>.
\<close>

record window =
  win_id :: nat
  constructor_name :: string
  webContents :: "webContents option"
  browserView :: jsval
  nat_focused :: bool
  nat_visible :: bool
  nat_minimized :: bool
  nat_fullscreen :: bool
  nat_documentEdited :: bool
  nat_bounds :: jsobj
  isVisible_var :: bool
  win_listeners :: "(string \<times> win_handler) list"
  own_props :: "string \<rightharpoonup> property"
  app_emitted :: "(string \<times> nat) list"
  nativeSetBounds_calls :: "(jsobj \<times> jsval list) list"

text \<open>Modelled from the spec: the native predicates, each reading its native flag.\<close>

definition isFocused :: "window \<Rightarrow> bool" where
  "isFocused w = nat_focused w"

definition isVisible :: "window \<Rightarrow> bool" where
  "isVisible w = nat_visible w"

definition isMinimized :: "window \<Rightarrow> bool" where
  "isMinimized w = nat_minimized w"

definition getBrowserView :: "window \<Rightarrow> jsval" where
  "getBrowserView w = browserView w"

definition getBounds :: "window \<Rightarrow> jsobj" where
  "getBounds w = nat_bounds w"

text \<open>
  \<^verbatim>\<open>this.webContents.m(...)\<close>: reading a property of an absent (null or undefined)
  \<^verbatim>\<open>webContents\<close> throws a TypeError.
\<close>

definition on_webContents :: "window \<Rightarrow> (webContents \<Rightarrow> error + 'a) \<Rightarrow> error + 'a" where
  "on_webContents w f = (case webContents w of None \<Rightarrow> Inl TypeError | Some wc \<Rightarrow> f wc)"

section \<open>Helpers: the delegation facade (lines 191-243)\<close>

definition loadURL :: "window \<Rightarrow> jsval list \<Rightarrow> error + jsval" where
  "loadURL this args = on_webContents this (\<lambda>wc. invoke wc ''loadURL'' args)"

definition getURL :: "window \<Rightarrow> jsval list \<Rightarrow> error + jsval" where
  "getURL this args = on_webContents this (\<lambda>wc. invoke wc ''getURL'' [])"

definition loadFile :: "window \<Rightarrow> jsval list \<Rightarrow> error + jsval" where
  "loadFile this args = on_webContents this (\<lambda>wc. invoke wc ''loadFile'' args)"

definition reload :: "window \<Rightarrow> jsval list \<Rightarrow> error + jsval" where
  "reload this args = on_webContents this (\<lambda>wc. invoke wc ''reload'' args)"

definition send :: "window \<Rightarrow> jsval list \<Rightarrow> error + jsval" where
  "send this args = on_webContents this (\<lambda>wc. invoke wc ''send'' args)"

definition openDevTools :: "window \<Rightarrow> jsval list \<Rightarrow> error + jsval" where
  "openDevTools this args = on_webContents this (\<lambda>wc. invoke wc ''openDevTools'' args)"

text \<open>
  The helpers declared without parameters ignore whatever the caller passes: the
  argument list is kept in the model to say so.
\<close>

definition closeDevTools :: "window \<Rightarrow> jsval list \<Rightarrow> error + jsval" where
  "closeDevTools this args = on_webContents this (\<lambda>wc. invoke wc ''closeDevTools'' [])"

definition isDevToolsOpened :: "window \<Rightarrow> jsval list \<Rightarrow> error + jsval" where
  "isDevToolsOpened this args = on_webContents this (\<lambda>wc. invoke wc ''isDevToolsOpened'' [])"

definition isDevToolsFocused :: "window \<Rightarrow> jsval list \<Rightarrow> error + jsval" where
  "isDevToolsFocused this args = on_webContents this (\<lambda>wc. invoke wc ''isDevToolsFocused'' [])"

definition toggleDevTools :: "window \<Rightarrow> jsval list \<Rightarrow> error + jsval" where
  "toggleDevTools this args = on_webContents this (\<lambda>wc. invoke wc ''toggleDevTools'' [])"

definition inspectElement :: "window \<Rightarrow> jsval list \<Rightarrow> error + jsval" where
  "inspectElement this args = on_webContents this (\<lambda>wc. invoke wc ''inspectElement'' args)"

definition inspectSharedWorker :: "window \<Rightarrow> jsval list \<Rightarrow> error + jsval" where
  "inspectSharedWorker this args =
     on_webContents this (\<lambda>wc. invoke wc ''inspectSharedWorker'' [])"

definition inspectServiceWorker :: "window \<Rightarrow> jsval list \<Rightarrow> error + jsval" where
  "inspectServiceWorker this args =
     on_webContents this (\<lambda>wc. invoke wc ''inspectServiceWorker'' [])"

definition showDefinitionForSelection :: "window \<Rightarrow> jsval list \<Rightarrow> error + jsval" where
  "showDefinitionForSelection this args =
     on_webContents this (\<lambda>wc. invoke wc ''showDefinitionForSelection'' [])"

definition capturePage :: "window \<Rightarrow> jsval list \<Rightarrow> error + jsval" where
  "capturePage this args = on_webContents this (\<lambda>wc. invoke wc ''capturePage'' args)"

text \<open>
  \<^verbatim>\<open>setBackgroundThrottling (allowed)\<close> binds its first argument (\<^verbatim>\<open>undefined\<close> when
  there is none), passes it on, and has no \<^verbatim>\<open>return\<close>: the call evaluates to
  \<^verbatim>\<open>undefined\<close> unless the content surface throws.
\<close>

definition first_arg :: "jsval list \<Rightarrow> jsval" where
  "first_arg args = (case args of [] \<Rightarrow> Undefined | a # _ \<Rightarrow> a)"

definition setBackgroundThrottling :: "window \<Rightarrow> jsval list \<Rightarrow> error + jsval" where
  "setBackgroundThrottling this args =
     on_webContents this (\<lambda>wc.
       case invoke wc ''setBackgroundThrottling'' [first_arg args] of
         Inl e \<Rightarrow> Inl e
       | Inr _ \<Rightarrow> Inr Undefined)"

section \<open>The registry queries (lines 154-188)\<close>

text \<open>
  \<^verbatim>\<open>win && win.constructor.name === 'BrowserWindow'\<close>, on a value that may be absent
  (what \<^verbatim>\<open>TopLevelWindow.fromId\<close> returns for an unknown id).
\<close>

definition isBrowserWindow :: "window option \<Rightarrow> bool" where
  "isBrowserWindow win =
     (case win of None \<Rightarrow> False | Some w \<Rightarrow> constructor_name w = ''BrowserWindow'')"

text \<open>
  \<^verbatim>\<open>TopLevelWindow.fromId\<close> and \<^verbatim>\<open>TopLevelWindow.getAllWindows\<close> belong to the
  base registry, which is not in this file: they are parameters.
\<close>

definition fromId :: "(nat \<Rightarrow> window option) \<Rightarrow> nat \<Rightarrow> window option" where
  "fromId topLevel_fromId ident =
     (let win = topLevel_fromId ident in if isBrowserWindow win then win else None)"

definition getAllWindows :: "window list \<Rightarrow> window list" where
  "getAllWindows topLevel_all = filter (\<lambda>w. isBrowserWindow (Some w)) topLevel_all"

text \<open>
  The loop of \<^verbatim>\<open>getFocusedWindow\<close>. \<^verbatim>\<open>||\<close> is short-circuit: the devtools query
  runs only for a window that is not focused, and it is the helper of line 216, which
  dereferences \<^verbatim>\<open>this.webContents\<close>.
\<close>

fun getFocusedWindow_loop :: "window list \<Rightarrow> error + window option" where
  "getFocusedWindow_loop [] = Inr None"
| "getFocusedWindow_loop (w # ws) =
     (if isFocused w then Inr (Some w)
      else case isDevToolsFocused w [] of
             Inl e \<Rightarrow> Inl e
           | Inr v \<Rightarrow> if truthy v then Inr (Some w) else getFocusedWindow_loop ws)"

definition getFocusedWindow :: "window list \<Rightarrow> error + window option" where
  "getFocusedWindow topLevel_all = getFocusedWindow_loop (getAllWindows topLevel_all)"

text \<open>
  The loop of \<^verbatim>\<open>fromWebContents\<close>:
  \<^verbatim>\<open>window.webContents && window.webContents.equal(webContents)\<close>. The left operand
  guards the dereference.
\<close>

definition matches_webContents :: "window \<Rightarrow> webContents \<Rightarrow> error + bool" where
  "matches_webContents w target =
     (if webContents w = None then Inr False
      else on_webContents w (\<lambda>wc. Inr (equal_wc wc target)))"

fun fromWebContents_loop :: "webContents \<Rightarrow> window list \<Rightarrow> error + window option" where
  "fromWebContents_loop target [] = Inr None"
| "fromWebContents_loop target (w # ws) =
     (case matches_webContents w target of
        Inl e \<Rightarrow> Inl e
      | Inr b \<Rightarrow> if b then Inr (Some w) else fromWebContents_loop target ws)"

definition fromWebContents :: "window list \<Rightarrow> webContents \<Rightarrow> error + window option" where
  "fromWebContents topLevel_all target =
     fromWebContents_loop target (getAllWindows topLevel_all)"

fun fromBrowserView_loop :: "jsval \<Rightarrow> window list \<Rightarrow> window option" where
  "fromBrowserView_loop view [] = None"
| "fromBrowserView_loop view (w # ws) =
     (if getBrowserView w = view then Some w else fromBrowserView_loop view ws)"

definition fromBrowserView :: "window list \<Rightarrow> jsval \<Rightarrow> window option" where
  "fromBrowserView topLevel_all view = fromBrowserView_loop view (getAllWindows topLevel_all)"

section \<open>Property accessors on the prototype (lines 79-152)\<close>

text \<open>
  Modelled from the spec: the native get/set pairs behind the properties. The native
  window is not in this file; each native getter reads its own flag and each native
  setter writes it.
\<close>

definition isFullscreen :: "window \<Rightarrow> bool" where
  "isFullscreen w = nat_fullscreen w"

definition isDocumentEdited :: "window \<Rightarrow> bool" where
  "isDocumentEdited w = nat_documentEdited w"

definition setDocumentEdited :: "bool \<Rightarrow> window \<Rightarrow> window" where
  "setDocumentEdited edited w = w\<lparr>nat_documentEdited := edited\<rparr>"

text \<open>
  The \<^verbatim>\<open>documentEdited\<close> accessor of lines 99-102:
  \<^verbatim>\<open>get: function () { return this.isFullscreen(); }\<close> and
  \<^verbatim>\<open>set: function (edited) { this.setDocumentEdited(edited); }\<close>.
\<close>

definition documentEdited_get :: "window \<Rightarrow> bool" where
  "documentEdited_get this = isFullscreen this"

definition documentEdited_set :: "bool \<Rightarrow> window \<Rightarrow> window" where
  "documentEdited_set edited this = setDocumentEdited edited this"

section \<open>Own properties: defineProperty, assignment, delete, read\<close>

text \<open>
  A property descriptor as \<^verbatim>\<open>Object.defineProperty\<close> receives it: every field may be
  absent. For \<open>d_get\<close> and \<open>d_set\<close>, \<open>Some None\<close> is a field present with the value
  \<^verbatim>\<open>undefined\<close>.
\<close>

record descriptor =
  d_get :: "getter option option"
  d_set :: "setter option option"
  d_value :: "jsval option"
  d_writable :: "bool option"
  d_enumerable :: "bool option"
  d_configurable :: "bool option"

definition is_accessor_desc :: "descriptor \<Rightarrow> bool" where
  "is_accessor_desc d = (d_get d \<noteq> None \<or> d_set d \<noteq> None)"

definition is_data_desc :: "descriptor \<Rightarrow> bool" where
  "is_data_desc d = (d_value d \<noteq> None \<or> d_writable d \<noteq> None)"

definition or_default :: "'a option \<Rightarrow> 'a \<Rightarrow> 'a" where
  "or_default x d = (case x of None \<Rightarrow> d | Some v \<Rightarrow> v)"

fun prop_enumerable :: "property \<Rightarrow> bool" where
  "prop_enumerable (Data _ _ e _) = e"
| "prop_enumerable (Accessor _ _ e _) = e"

fun prop_configurable :: "property \<Rightarrow> bool" where
  "prop_configurable (Data _ _ _ c) = c"
| "prop_configurable (Accessor _ _ _ c) = c"

text \<open>A new property: absent fields take their defaults (\<^verbatim>\<open>undefined\<close>, \<^verbatim>\<open>false\<close>).\<close>

definition create_property :: "descriptor \<Rightarrow> property" where
  "create_property d =
     (if is_accessor_desc d
      then Accessor (or_default (d_get d) None) (or_default (d_set d) None)
             (or_default (d_enumerable d) False) (or_default (d_configurable d) False)
      else Data (or_default (d_value d) Undefined) (or_default (d_writable d) False)
             (or_default (d_enumerable d) False) (or_default (d_configurable d) False))"

text \<open>
  ECMAScript's ValidateAndApplyPropertyDescriptor, the part that rejects: what a
  property that is not configurable refuses.
\<close>

definition rejected :: "property \<Rightarrow> descriptor \<Rightarrow> bool" where
  "rejected cur d =
     (\<not> prop_configurable cur \<and>
      (d_configurable d = Some True
       \<or> (d_enumerable d \<noteq> None \<and> d_enumerable d \<noteq> Some (prop_enumerable cur))
       \<or> (case cur of
             Accessor g s _ _ \<Rightarrow>
               is_data_desc d
               \<or> (d_get d \<noteq> None \<and> d_get d \<noteq> Some g)
               \<or> (d_set d \<noteq> None \<and> d_set d \<noteq> Some s)
           | Data v wr _ _ \<Rightarrow>
               is_accessor_desc d
               \<or> (\<not> wr \<and> (d_writable d = Some True
                           \<or> (d_value d \<noteq> None \<and> d_value d \<noteq> Some v))))))"

text \<open>The part that applies: present fields are written, a change of kind resets the rest.\<close>

definition apply_descriptor :: "property \<Rightarrow> descriptor \<Rightarrow> property" where
  "apply_descriptor cur d =
     (let e = or_default (d_enumerable d) (prop_enumerable cur);
          c = or_default (d_configurable d) (prop_configurable cur)
      in case cur of
           Accessor g s _ _ \<Rightarrow>
             if is_data_desc d
             then Data (or_default (d_value d) Undefined) (or_default (d_writable d) False) e c
             else Accessor (or_default (d_get d) g) (or_default (d_set d) s) e c
         | Data v wr _ _ \<Rightarrow>
             if is_accessor_desc d
             then Accessor (or_default (d_get d) None) (or_default (d_set d) None) e c
             else Data (or_default (d_value d) v) (or_default (d_writable d) wr) e c)"

text \<open>
  \<^verbatim>\<open>Object.defineProperty(this, name, d)\<close> on a window (an extensible object). A
  descriptor that names both an accessor field and a data field is a TypeError, and so
  is a change that the current property rejects.
\<close>

definition defineProperty :: "string \<Rightarrow> descriptor \<Rightarrow> window \<Rightarrow> error + window" where
  "defineProperty name d this =
     (if is_accessor_desc d \<and> is_data_desc d then Inl TypeError
      else case own_props this name of
             None \<Rightarrow> Inr (this\<lparr>own_props := (own_props this)(name \<mapsto> create_property d)\<rparr>)
           | Some cur \<Rightarrow>
               if rejected cur d then Inl TypeError
               else Inr (this\<lparr>own_props := (own_props this)(name \<mapsto> apply_descriptor cur d)\<rparr>))"

text \<open>
  Assignment \<^verbatim>\<open>this[name] = v\<close> to an own property. An accessor without a setter and
  a data property that is not writable refuse the value: a TypeError in strict code,
  nothing at all in sloppy code. What a setter does is its own business; it does not
  replace the property. Without an own property of that name the assignment creates an
  ordinary data property (accessors inherited from the prototype are the functions of
  the previous section).
\<close>

definition assign_property :: "bool \<Rightarrow> string \<Rightarrow> jsval \<Rightarrow> window \<Rightarrow> error + window" where
  "assign_property strict name v this =
     (case own_props this name of
        None \<Rightarrow> Inr (this\<lparr>own_props := (own_props this)(name \<mapsto> Data v True True True)\<rparr>)
      | Some (Accessor g None e c) \<Rightarrow> if strict then Inl TypeError else Inr this
      | Some (Accessor g (Some s) e c) \<Rightarrow> Inr this
      | Some (Data old wr e c) \<Rightarrow>
          if wr then Inr (this\<lparr>own_props := (own_props this)(name \<mapsto> Data v wr e c)\<rparr>)
          else if strict then Inl TypeError else Inr this)"

text \<open>\<^verbatim>\<open>delete this[name]\<close>: refused by a property that is not configurable.\<close>

definition delete_property :: "bool \<Rightarrow> string \<Rightarrow> window \<Rightarrow> error + window" where
  "delete_property strict name this =
     (case own_props this name of
        None \<Rightarrow> Inr this
      | Some cur \<Rightarrow>
          if prop_configurable cur
          then Inr (this\<lparr>own_props := (own_props this)(name := None)\<rparr>)
          else if strict then Inl TypeError else Inr this)"

text \<open>
  The getter of lines 71-73, \<^verbatim>\<open>return this.webContents.devToolsWebContents\<close>, with
  \<^verbatim>\<open>this\<close> the window the property is read on.
\<close>

fun run_getter :: "getter \<Rightarrow> window \<Rightarrow> error + jsval" where
  "run_getter GetDevToolsWebContents this =
     on_webContents this (\<lambda>wc. Inr (devToolsWebContents wc))"
| "run_getter (GetConst v) this = Inr v"

text \<open>Reading an own property (\<^verbatim>\<open>undefined\<close> stands for a name that is not own).\<close>

definition read_property :: "string \<Rightarrow> window \<Rightarrow> error + jsval" where
  "read_property name this =
     (case own_props this name of
        None \<Rightarrow> Inr Undefined
      | Some (Data v _ _ _) \<Rightarrow> Inr v
      | Some (Accessor None _ _ _) \<Rightarrow> Inr Undefined
      | Some (Accessor (Some g) _ _ _) \<Rightarrow> run_getter g this)"

section \<open>The constructor hook \<^verbatim>\<open>_init\<close> (lines 9-75)\<close>

text \<open>
  The native \<^verbatim>\<open>setBounds\<close>, captured as \<^verbatim>\<open>nativeSetBounds\<close> at line 19. The
  native resize is not in this file: the model records the call it receives.
\<close>

definition nativeSetBounds :: "jsobj \<Rightarrow> jsval list \<Rightarrow> window \<Rightarrow> window" where
  "nativeSetBounds bounds opts this =
     this\<lparr>nativeSetBounds_calls := nativeSetBounds_calls this @ [(bounds, opts)]\<rparr>"

text \<open>The override installed at lines 20-26.\<close>

definition setBounds :: "jsobj \<Rightarrow> jsval list \<Rightarrow> window \<Rightarrow> window" where
  "setBounds bounds opts this =
     (let bounds' = spread (getBounds this) bounds
      in nativeSetBounds bounds' opts this)"

text \<open>
  \<^verbatim>\<open>visibilityChanged\<close> (lines 50-57). The closure variable is assigned before
  \<^verbatim>\<open>this.webContents.emit\<close> is evaluated, so a TypeError of that call leaves the
  assignment in place: the result is the exception, if any, and the window after.
\<close>

definition visibilityChanged :: "window \<Rightarrow> error option \<times> window" where
  "visibilityChanged this =
     (let newState = (isVisible this \<and> \<not> isMinimized this)
      in if isVisible_var this \<noteq> newState
         then (let this1 = this\<lparr>isVisible_var := newState\<rparr>;
                   visibilityState = (if isVisible_var this1 then ''visible'' else ''hidden'')
               in case webContents this1 of
                    None \<Rightarrow> (Some TypeError, this1)
                  | Some wc \<Rightarrow>
                      (None, this1\<lparr>webContents :=
                         Some (emit_wc ''-window-visibility-change'' [JStr visibilityState] wc)\<rparr>))
         else (None, this))"

text \<open>
  \<^verbatim>\<open>app.emit(name, event, this)\<close>: the app is not in this file; the model records the
  event name and the window.
\<close>

definition app_emit :: "string \<Rightarrow> window \<Rightarrow> window" where
  "app_emit name this = this\<lparr>app_emitted := app_emitted this @ [(name, win_id this)]\<rparr>"

fun run_win_handler :: "win_handler \<Rightarrow> window \<Rightarrow> error option \<times> window" where
  "run_win_handler BlurToApp this = (None, app_emit ''browser-window-blur'' this)"
| "run_win_handler FocusToApp this = (None, app_emit ''browser-window-focus'' this)"
| "run_win_handler VisibilityChanged this = visibilityChanged this"

text \<open>
  The window's own emitter: \<^verbatim>\<open>this.on(name, l)\<close> appends a listener,
  \<^verbatim>\<open>emit(name)\<close> calls those registered for \<open>name\<close> in order, and an exception
  ends the emission.
\<close>

definition on_win :: "string \<Rightarrow> win_handler \<Rightarrow> window \<Rightarrow> window" where
  "on_win name h this = this\<lparr>win_listeners := win_listeners this @ [(name, h)]\<rparr>"

fun run_listeners :: "win_handler list \<Rightarrow> window \<Rightarrow> error option \<times> window" where
  "run_listeners [] this = (None, this)"
| "run_listeners (h # hs) this =
     (case run_win_handler h this of
        (Some e, this') \<Rightarrow> (Some e, this')
      | (None, this') \<Rightarrow> run_listeners hs this')"

definition emit_win :: "string \<Rightarrow> window \<Rightarrow> error option \<times> window" where
  "emit_win name this =
     run_listeners (map snd (filter (\<lambda>(n, _). n = name) (win_listeners this))) this"

definition visibilityEvents :: "string list" where
  "visibilityEvents = [''show'', ''hide'', ''minimize'', ''maximize'', ''restore'']"

text \<open>The descriptor of lines 68-74.\<close>

definition devToolsWebContents_descriptor :: descriptor where
  "devToolsWebContents_descriptor =
     \<lparr>d_get = Some (Some GetDevToolsWebContents), d_set = None, d_value = None,
      d_writable = None, d_enumerable = Some True, d_configurable = Some False\<rparr>"

text \<open>
  \<^verbatim>\<open>_init\<close>, statement by statement. The parent's \<^verbatim>\<open>_init\<close> and
  \<^verbatim>\<open>setContentView\<close> are native and leave no trace in the model; the override of
  \<^verbatim>\<open>setBounds\<close> is the function \<open>setBounds\<close> above. Line 36 dereferences
  \<^verbatim>\<open>this.webContents\<close>, so a window without one does not get past it.
\<close>

definition init :: "window \<Rightarrow> error + window" where
  "init this =
     (case webContents this of
        None \<Rightarrow> Inl TypeError
      | Some wc \<Rightarrow>
          (let this1 = this\<lparr>webContents := Some (once_wc ''load-url'' FocusThis wc)\<rparr>;
               this2 = on_win ''blur'' BlurToApp this1;
               this3 = on_win ''focus'' FocusToApp this2;
               this4 = this3\<lparr>isVisible_var := (isVisible this3 \<and> \<not> isMinimized this3)\<rparr>;
               this5 = fold (\<lambda>event. on_win event VisibilityChanged) visibilityEvents this4;
               this6 = app_emit ''browser-window-created'' this5
           in defineProperty ''devToolsWebContents'' devToolsWebContents_descriptor this6))"

section \<open>Running a window\<close>

text \<open>
  What happens to a window after \<^verbatim>\<open>_init\<close>: the native layer brings the window to a
  native state and emits a window event (\<open>WindowEvent name visible minimized\<close>), the
  content surface emits an event of its own (\<open>ContentEvent\<close>), or application code
  assigns, redefines or deletes a property of the window (\<open>Script\<close>). An exception
  thrown by a listener goes back to the native emitter; the window keeps the state the
  listener left.
\<close>

datatype prop_op =
    Assign bool string jsval
  | Define string descriptor
  | Delete bool string

datatype input =
    WindowEvent string bool bool
  | ContentEvent string "jsval list"
  | Script prop_op

text \<open>A script statement that throws leaves the window as it was.\<close>

fun apply_prop_op :: "prop_op \<Rightarrow> window \<Rightarrow> window" where
  "apply_prop_op (Assign strict name v) this =
     (case assign_property strict name v this of Inl _ \<Rightarrow> this | Inr this' \<Rightarrow> this')"
| "apply_prop_op (Define name d) this =
     (case defineProperty name d this of Inl _ \<Rightarrow> this | Inr this' \<Rightarrow> this')"
| "apply_prop_op (Delete strict name) this =
     (case delete_property strict name this of Inl _ \<Rightarrow> this | Inr this' \<Rightarrow> this')"

fun step :: "input \<Rightarrow> window \<Rightarrow> window" where
  "step (WindowEvent name vis mini) this =
     snd (emit_win name (this\<lparr>nat_visible := vis, nat_minimized := mini\<rparr>))"
| "step (ContentEvent name args) this =
     (case webContents this of
        None \<Rightarrow> this
      | Some wc \<Rightarrow> this\<lparr>webContents := Some (emit_wc name args wc)\<rparr>)"
| "step (Script operation) this = apply_prop_op operation this"

definition run :: "input list \<Rightarrow> window \<Rightarrow> window" where
  "run ins this = fold step ins this"

text \<open>The visibility notifications the content surface of a window has received.\<close>

definition visibility_notifications :: "window \<Rightarrow> jsval list list" where
  "visibility_notifications this =
     (case webContents this of
        None \<Rightarrow> []
      | Some wc \<Rightarrow>
          map snd (filter (\<lambda>(n, _). n = ''-window-visibility-change'') (wc_emitted wc)))"

definition focus_count :: "window \<Rightarrow> nat" where
  "focus_count this = (case webContents this of None \<Rightarrow> 0 | Some wc \<Rightarrow> focus_calls wc)"

section \<open>Concrete windows\<close>

definition wc0 :: webContents where
  "wc0 = \<lparr>wc_id = 7, devToolsWebContents = JObj 70,
          invoke = (\<lambda>name args. Inr (JNum (int (length args)))),
          wc_listeners = [], wc_emitted = [], focus_calls = 0\<rparr>"

definition win0 :: window where
  "win0 = \<lparr>win_id = 1, constructor_name = ''BrowserWindow'', webContents = Some wc0,
           browserView = Null, nat_focused = False, nat_visible = True,
           nat_minimized = False, nat_fullscreen = False, nat_documentEdited = False,
           nat_bounds = [''x'' \<mapsto> JNum 0, ''y'' \<mapsto> JNum 0,
                         ''width'' \<mapsto> JNum 800, ''height'' \<mapsto> JNum 600],
           isVisible_var = False, win_listeners = [], own_props = Map.empty,
           app_emitted = [], nativeSetBounds_calls = []\<rparr>"

text \<open>
  A second content surface, a window whose \<^verbatim>\<open>webContents\<close> is absent, and a window
  bound to the second surface.
\<close>

definition wc1 :: webContents where
  "wc1 = wc0\<lparr>wc_id := 8\<rparr>"

definition win_absent :: window where
  "win_absent = win0\<lparr>win_id := 2, webContents := None\<rparr>"

definition win1 :: window where
  "win1 = win0\<lparr>win_id := 3, webContents := Some wc1\<rparr>"

definition win_focused :: window where
  "win_focused = win0\<lparr>win_id := 4, nat_focused := True\<rparr>"

definition wc_devtools :: webContents where
  "wc_devtools =
     wc0\<lparr>wc_id := 9, invoke := (\<lambda>name args. Inr (JBool (name = ''isDevToolsFocused'')))\<rparr>"

definition win_devtools :: window where
  "win_devtools = win0\<lparr>win_id := 5, webContents := Some wc_devtools\<rparr>"

section \<open>What the claims speak of\<close>

text \<open>
  The window events of a run, as the native layer delivers them: name, and what
  \<^verbatim>\<open>isVisible()\<close> and \<^verbatim>\<open>isMinimized()\<close> return while the listeners run.
\<close>

definition window_events :: "(string \<times> bool \<times> bool) list \<Rightarrow> input list" where
  "window_events evs = map (\<lambda>(name, vis, mini). WindowEvent name vis mini) evs"

text \<open>
  The derived values \<open>isVisible \<and> \<not> isMinimized\<close> that the visibility events of a run
  observe, in order.
\<close>

fun observed :: "input list \<Rightarrow> bool list" where
  "observed [] = []"
| "observed (WindowEvent name vis mini # ins) =
     (if name \<in> set visibilityEvents then (vis \<and> \<not> mini) # observed ins else observed ins)"
| "observed (ContentEvent name args # ins) = observed ins"
| "observed (Script operation # ins) = observed ins"

text \<open>One notification for each observed value that differs from the one before it.\<close>

fun notifications_of :: "bool \<Rightarrow> bool list \<Rightarrow> jsval list list" where
  "notifications_of last_state [] = []"
| "notifications_of last_state (new_state # rest) =
     (if new_state \<noteq> last_state
      then [JStr (if new_state then ''visible'' else ''hidden'')] # notifications_of new_state rest
      else notifications_of last_state rest)"

fun is_load_url :: "input \<Rightarrow> bool" where
  "is_load_url (ContentEvent name args) = (name = ''load-url'')"
| "is_load_url _ = False"

text \<open>A window as the native constructor hands it to \<^verbatim>\<open>_init\<close>: nothing registered yet.\<close>

definition fresh :: "window \<Rightarrow> bool" where
  "fresh this =
     (win_listeners this = [] \<and> own_props this ''devToolsWebContents'' = None
      \<and> (case webContents this of None \<Rightarrow> True | Some wc \<Rightarrow> wc_listeners wc = []))"

text \<open>What \<^verbatim>\<open>_init\<close> leaves on a fresh window: its listeners and its property.\<close>

definition installed_listeners :: "(string \<times> win_handler) list" where
  "installed_listeners =
     [(''blur'', BlurToApp), (''focus'', FocusToApp)]
     @ map (\<lambda>event. (event, VisibilityChanged)) visibilityEvents"

definition installed_property :: property where
  "installed_property = Accessor (Some GetDevToolsWebContents) None True False"

text \<open>The window \<open>win0\<close> after \<^verbatim>\<open>_init\<close>.\<close>

definition win_ready :: window where
  "win_ready =
     win0\<lparr>webContents := Some (wc0\<lparr>wc_listeners := [(''load-url'', True, FocusThis)]\<rparr>),
          isVisible_var := True,
          win_listeners := installed_listeners,
          app_emitted := [(''browser-window-created'', 1)],
          own_props := [''devToolsWebContents'' \<mapsto> installed_property]\<rparr>"

section \<open>The registry queries: results\<close>

lemma matches_webContents_total:
  "matches_webContents w target =
     Inr (case webContents w of None \<Rightarrow> False | Some wc \<Rightarrow> equal_wc wc target)"
  by (simp add: matches_webContents_def on_webContents_def split: option.splits)

lemma fromWebContents_loop_find:
  "fromWebContents_loop target ws =
     Inr (find (\<lambda>w. case webContents w of None \<Rightarrow> False | Some wc \<Rightarrow> equal_wc wc target) ws)"
  by (induction ws) (simp_all add: matches_webContents_total)

lemma getAllWindows_append:
  "getAllWindows (xs @ ys) = getAllWindows xs @ getAllWindows ys"
  by (simp add: getAllWindows_def)

lemma find_append_skip:
  "\<not> P w \<Longrightarrow> find P (xs @ w # ys) = find P (xs @ ys)"
  by (induction xs) simp_all

text \<open>
  Claim C6. \<^verbatim>\<open>fromWebContents\<close> scans the snapshot \<^verbatim>\<open>getAllWindows()\<close> in order
  and returns the first window whose content surface is present and \<^verbatim>\<open>equal\<close> to the
  queried handle; when no window matches it returns \<^verbatim>\<open>null\<close> (\<open>Inr None\<close>). The
  result is always a return value (\<open>Inr\<close>), never an exception.
\<close>

theorem fromWebContents_first_match:
  "fromWebContents topLevel_all target =
     Inr (find (\<lambda>w. case webContents w of None \<Rightarrow> False | Some wc \<Rightarrow> equal_wc wc target)
            (getAllWindows topLevel_all))"
  by (simp add: fromWebContents_def fromWebContents_loop_find)

text \<open>
  Claim C9. A window whose \<^verbatim>\<open>webContents\<close> is absent is skipped by
  \<^verbatim>\<open>fromWebContents\<close>: wherever it stands in the registry, the query returns what it
  returns without that window, and it does not throw. So the window neither makes the
  query fail nor hides a later match.
\<close>

theorem fromWebContents_skips_absent:
  assumes "webContents w = None"
  shows "fromWebContents (xs @ w # ys) target = fromWebContents (xs @ ys) target
         \<and> (\<forall>e. fromWebContents (xs @ w # ys) target \<noteq> Inl e)"
proof -
  let ?P = "\<lambda>w. case webContents w of None \<Rightarrow> False | Some wc \<Rightarrow> equal_wc wc target"
  have skip: "\<not> ?P w" using assms by simp
  have "find ?P (getAllWindows (xs @ w # ys)) = find ?P (getAllWindows (xs @ ys))"
  proof (cases "isBrowserWindow (Some w)")
    case True
    then have "getAllWindows (xs @ w # ys) = getAllWindows xs @ w # getAllWindows ys"
      by (simp add: getAllWindows_def)
    then show ?thesis
      using find_append_skip [of ?P w "getAllWindows xs" "getAllWindows ys"] skip
      by (simp add: getAllWindows_append)
  next
    case False
    then show ?thesis by (simp add: getAllWindows_def)
  qed
  then show ?thesis
    by (simp add: fromWebContents_def fromWebContents_loop_find)
qed

text \<open>
  The registry \<open>[win_absent, win1]\<close> queried for the surface of \<open>win1\<close>: the window
  without a content surface stands first and the query still finds \<open>win1\<close>.
\<close>

theorem fromWebContents_skips_absent_witness:
  "webContents win_absent = None
   \<and> fromWebContents ([] @ win_absent # [win1]) wc1 = fromWebContents ([] @ [win1]) wc1
   \<and> (\<forall>e. fromWebContents ([] @ win_absent # [win1]) wc1 \<noteq> Inl e)"
proof -
  have h: "webContents win_absent = None" by (simp add: win_absent_def)
  from h fromWebContents_skips_absent [OF h, of "[]" "[win1]" wc1]
  show ?thesis by blast
qed

lemma fromWebContents_after_absent:
  "fromWebContents [win_absent, win1] wc1 = Inr (Some win1)"
  by (simp add: fromWebContents_def getAllWindows_def isBrowserWindow_def win_absent_def
      win1_def win0_def matches_webContents_def on_webContents_def equal_wc_def wc1_def wc0_def)

text \<open>
  Claim C5. \<^verbatim>\<open>getFocusedWindow\<close> is meant to return the first window that is focused
  or whose devtools are focused, and \<^verbatim>\<open>null\<close> when there is none. On a registry
  holding an unfocused window whose \<^verbatim>\<open>webContents\<close> is absent it does neither: the
  devtools query of that window dereferences the absent \<^verbatim>\<open>webContents\<close> and the
  TypeError ends the scan, also when a focused window follows. \<^verbatim>\<open>fromWebContents\<close>,
  on the same registry, guards the dereference and returns \<^verbatim>\<open>null\<close>.
\<close>

theorem getFocusedWindow_raises_on_absent:
  "getAllWindows [win_absent] = [win_absent]
   \<and> \<not> isFocused win_absent
   \<and> getFocusedWindow [win_absent] = Inl TypeError
   \<and> getFocusedWindow [win_absent, win_focused] = Inl TypeError
   \<and> fromWebContents [win_absent] wc0 = Inr None"
  by (simp add: getFocusedWindow_def getAllWindows_def isBrowserWindow_def win_absent_def
      win0_def isFocused_def isDevToolsFocused_def on_webContents_def fromWebContents_def
      matches_webContents_def win_focused_def)

text \<open>
  Where every window of the snapshot has a content surface whose devtools query
  returns, the scan is the first match in enumeration order.
\<close>

lemma getFocusedWindow_loop_bound:
  "\<forall>w\<in>set ws. webContents w \<noteq> None \<and>
      (\<forall>wc. webContents w = Some wc \<longrightarrow> (\<exists>v. invoke wc ''isDevToolsFocused'' [] = Inr v)) \<Longrightarrow>
   getFocusedWindow_loop ws =
     Inr (find (\<lambda>w. isFocused w \<or>
                  (case isDevToolsFocused w [] of Inl e \<Rightarrow> False | Inr v \<Rightarrow> truthy v)) ws)"
proof (induction ws)
  case Nil
  then show ?case by simp
next
  case (Cons w ws)
  then obtain wc v where "webContents w = Some wc" "invoke wc ''isDevToolsFocused'' [] = Inr v"
    by auto
  then have "isDevToolsFocused w [] = Inr v"
    by (simp add: isDevToolsFocused_def on_webContents_def)
  with Cons show ?case by simp
qed

lemma getFocusedWindow_scenario:
  "getFocusedWindow [win0, win_focused, win_devtools] = Inr (Some win_focused)
   \<and> getFocusedWindow [win0, win_devtools, win_focused] = Inr (Some win_devtools)
   \<and> getFocusedWindow [win0] = Inr None"
  by (simp add: getFocusedWindow_def getAllWindows_def isBrowserWindow_def win0_def
      isFocused_def isDevToolsFocused_def on_webContents_def win_focused_def win_devtools_def
      wc0_def wc_devtools_def)

section \<open>The properties: results\<close>

text \<open>
  Claim C8. \<^verbatim>\<open>documentEdited\<close> should be a get/set pair over the native
  document-edited state. The setter does write that state; the getter returns the
  native fullscreen state instead, whatever was assigned. On a window that is not
  fullscreen, reading \<^verbatim>\<open>documentEdited\<close> after assigning \<^verbatim>\<open>true\<close> gives
  \<^verbatim>\<open>false\<close>.
\<close>

theorem documentEdited_reads_fullscreen:
  "documentEdited_get (documentEdited_set v w) = isFullscreen w
   \<and> isDocumentEdited (documentEdited_set v w) = v
   \<and> documentEdited_get (documentEdited_set True win0) = False"
  by (simp add: documentEdited_get_def documentEdited_set_def isFullscreen_def
      isDocumentEdited_def setDocumentEdited_def win0_def)

section \<open>The bounds override: results\<close>

text \<open>
  Claim C2. The overridden \<^verbatim>\<open>setBounds(P, ...opts)\<close> makes exactly one call of the
  native \<^verbatim>\<open>setBounds\<close> and nothing else. The bounds it passes have, at every key, the
  value of the patch \<open>P\<close> where \<open>P\<close> has the key and the value of the current bounds
  \<^verbatim>\<open>getBounds()\<close> where it has not; the options are passed as they came. With an
  empty patch the bounds passed are the current bounds.
\<close>

theorem setBounds_forwards_merged:
  "setBounds P opts this =
     this\<lparr>nativeSetBounds_calls := nativeSetBounds_calls this @
        [((\<lambda>k. case P k of None \<Rightarrow> getBounds this k | Some v \<Rightarrow> Some v), opts)]\<rparr>
   \<and> setBounds Map.empty opts this =
     this\<lparr>nativeSetBounds_calls := nativeSetBounds_calls this @ [(getBounds this, opts)]\<rparr>"
  by (simp add: setBounds_def nativeSetBounds_def spread_def map_add_def)

text \<open>The spec's scenario: bounds (0, 0, 800, 600) patched with a width of 1000.\<close>

lemma setBounds_scenario:
  "nativeSetBounds_calls (setBounds [''width'' \<mapsto> JNum 1000] [JBool True] win0) =
     [([''x'' \<mapsto> JNum 0, ''y'' \<mapsto> JNum 0, ''width'' \<mapsto> JNum 1000, ''height'' \<mapsto> JNum 600],
       [JBool True])]"
  by (auto simp add: setBounds_def nativeSetBounds_def spread_def getBounds_def win0_def
      map_add_def fun_eq_iff)

section \<open>The delegation facade: results\<close>

text \<open>
  Claim C7, as the code has it. On a window with a bound content surface every helper
  calls the content surface's operation of the same name and adds no validation. The
  helpers declared with a rest parameter (\<^verbatim>\<open>loadURL\<close>, \<^verbatim>\<open>loadFile\<close>, \<^verbatim>\<open>reload\<close>,
  \<^verbatim>\<open>send\<close>, \<^verbatim>\<open>openDevTools\<close>, \<^verbatim>\<open>inspectElement\<close>, \<^verbatim>\<open>capturePage\<close>) pass every
  argument and return the result, or the exception, unchanged. \<^verbatim>\<open>getURL\<close> and the
  helpers declared without parameters call the operation with no argument and return
  its result unchanged. \<^verbatim>\<open>setBackgroundThrottling\<close> passes its first argument and
  returns \<^verbatim>\<open>undefined\<close>.
\<close>

theorem facade_delegates:
  assumes "webContents this = Some wc"
  shows "loadURL this args = invoke wc ''loadURL'' args
   \<and> loadFile this args = invoke wc ''loadFile'' args
   \<and> reload this args = invoke wc ''reload'' args
   \<and> send this args = invoke wc ''send'' args
   \<and> openDevTools this args = invoke wc ''openDevTools'' args
   \<and> inspectElement this args = invoke wc ''inspectElement'' args
   \<and> capturePage this args = invoke wc ''capturePage'' args
   \<and> getURL this args = invoke wc ''getURL'' []
   \<and> closeDevTools this args = invoke wc ''closeDevTools'' []
   \<and> isDevToolsOpened this args = invoke wc ''isDevToolsOpened'' []
   \<and> isDevToolsFocused this args = invoke wc ''isDevToolsFocused'' []
   \<and> toggleDevTools this args = invoke wc ''toggleDevTools'' []
   \<and> inspectSharedWorker this args = invoke wc ''inspectSharedWorker'' []
   \<and> inspectServiceWorker this args = invoke wc ''inspectServiceWorker'' []
   \<and> showDefinitionForSelection this args = invoke wc ''showDefinitionForSelection'' []
   \<and> setBackgroundThrottling this args =
       (case invoke wc ''setBackgroundThrottling'' [first_arg args] of
          Inl e \<Rightarrow> Inl e | Inr r \<Rightarrow> Inr Undefined)"
  using assms
  by (simp add: on_webContents_def loadURL_def loadFile_def reload_def send_def
      openDevTools_def inspectElement_def capturePage_def getURL_def closeDevTools_def
      isDevToolsOpened_def isDevToolsFocused_def toggleDevTools_def inspectSharedWorker_def
      inspectServiceWorker_def showDefinitionForSelection_def setBackgroundThrottling_def)

text \<open>
  On \<open>win0\<close>, whose content surface answers every call with the number of arguments it
  received: \<^verbatim>\<open>loadURL\<close> with one argument is answered 1, \<^verbatim>\<open>getURL\<close> with one
  argument is answered 0, and \<^verbatim>\<open>setBackgroundThrottling\<close> evaluates to
  \<^verbatim>\<open>undefined\<close>.
\<close>

theorem facade_delegates_witness:
  "webContents win0 = Some wc0
   \<and> loadURL win0 [JStr ''https://example.org''] = Inr (JNum 1)
   \<and> getURL win0 [JStr ''x''] = Inr (JNum 0)
   \<and> setBackgroundThrottling win0 [JBool True] = Inr Undefined"
proof -
  have h: "webContents win0 = Some wc0" by (simp add: win0_def)
  have v: "invoke wc0 = (\<lambda>name args. Inr (JNum (int (length args))))" by (simp add: wc0_def)
  from facade_delegates [OF h, of "[JStr ''https://example.org'']"]
       facade_delegates [OF h, of "[JStr ''x'']"]
       facade_delegates [OF h, of "[JBool True]"] h v
  show ?thesis by (simp add: first_arg_def)
qed

text \<open>
  The claim as the spec states it fails on the same window: the argument of
  \<^verbatim>\<open>getURL\<close> and of \<^verbatim>\<open>closeDevTools\<close> does not reach the content surface, and
  the result of the content surface's \<^verbatim>\<open>setBackgroundThrottling\<close> does not reach
  the caller.
\<close>

theorem facade_counterexample:
  "webContents win0 = Some wc0
   \<and> getURL win0 [JStr ''x''] \<noteq> invoke wc0 ''getURL'' [JStr ''x'']
   \<and> closeDevTools win0 [JStr ''x''] \<noteq> invoke wc0 ''closeDevTools'' [JStr ''x'']
   \<and> setBackgroundThrottling win0 [JBool True]
       \<noteq> invoke wc0 ''setBackgroundThrottling'' [JBool True]"
  by (simp add: on_webContents_def getURL_def closeDevTools_def setBackgroundThrottling_def
      first_arg_def win0_def wc0_def)

section \<open>The constructor hook: what it installs\<close>

lemma fold_on_win:
  "fold (\<lambda>event. on_win event h) evs this =
     this\<lparr>win_listeners := win_listeners this @ map (\<lambda>event. (event, h)) evs\<rparr>"
  by (induction evs arbitrary: this) (simp_all add: on_win_def)

lemma init_fresh:
  assumes "fresh w0" and "webContents w0 = Some wc"
  shows "init w0 =
     Inr (w0\<lparr>webContents := Some (wc\<lparr>wc_listeners := [(''load-url'', True, FocusThis)]\<rparr>),
             isVisible_var := (nat_visible w0 \<and> \<not> nat_minimized w0),
             win_listeners := installed_listeners,
             app_emitted := app_emitted w0 @ [(''browser-window-created'', win_id w0)],
             own_props := (own_props w0)(''devToolsWebContents'' \<mapsto> installed_property)\<rparr>)"
  using assms
  by (simp add: init_def fresh_def fold_on_win on_win_def once_wc_def app_emit_def
      defineProperty_def devToolsWebContents_descriptor_def is_accessor_desc_def
      is_data_desc_def create_property_def or_default_def isVisible_def isMinimized_def
      installed_listeners_def installed_property_def)

lemma init_Inr_bound: "init w0 = Inr w \<Longrightarrow> \<exists>wc. webContents w0 = Some wc"
  by (cases "webContents w0") (simp_all add: init_def)

lemma listeners_for:
  "map snd (filter (\<lambda>(n, _). n = name) installed_listeners) =
     (if name = ''blur'' then [BlurToApp]
      else if name = ''focus'' then [FocusToApp]
      else if name \<in> set visibilityEvents then [VisibilityChanged]
      else [])"
  by (auto simp add: installed_listeners_def visibilityEvents_def)

lemma emit_win_installed:
  "win_listeners this = installed_listeners \<Longrightarrow>
   emit_win name this =
     (if name = ''blur'' then (None, app_emit ''browser-window-blur'' this)
      else if name = ''focus'' then (None, app_emit ''browser-window-focus'' this)
      else if name \<in> set visibilityEvents then visibilityChanged this
      else (None, this))"
  by (simp add: emit_win_def listeners_for split: prod.splits option.splits)

section \<open>The emitters and \<^verbatim>\<open>visibilityChanged\<close>\<close>

lemma fold_handlers_emitted:
  "wc_emitted (fold (\<lambda>(_, _, h). run_wc_handler h) hs wc) = wc_emitted wc"
proof (induction hs arbitrary: wc)
  case Nil
  then show ?case by simp
next
  case (Cons a hs)
  obtain n b h where a: "a = (n, b, h)" by (cases a)
  show ?case by (cases h) (simp add: a Cons focus_wc_def)
qed

lemma fold_handlers_listeners:
  "wc_listeners (fold (\<lambda>(_, _, h). run_wc_handler h) hs wc) = wc_listeners wc"
proof (induction hs arbitrary: wc)
  case Nil
  then show ?case by simp
next
  case (Cons a hs)
  obtain n b h where a: "a = (n, b, h)" by (cases a)
  show ?case by (cases h) (simp add: a Cons focus_wc_def)
qed

lemma emit_wc_emitted: "wc_emitted (emit_wc name args wc) = wc_emitted wc @ [(name, args)]"
  by (simp add: emit_wc_def Let_def fold_handlers_emitted)

lemma emit_wc_pending:
  "wc_listeners wc = [(''load-url'', True, FocusThis)] \<Longrightarrow>
   wc_listeners (emit_wc name args wc) = (if name = ''load-url'' then [] else wc_listeners wc)
   \<and> focus_calls (emit_wc name args wc) =
       (if name = ''load-url'' then Suc (focus_calls wc) else focus_calls wc)"
  by (simp add: emit_wc_def Let_def focus_wc_def)

lemma emit_wc_done:
  "wc_listeners wc = [] \<Longrightarrow>
   wc_listeners (emit_wc name args wc) = [] \<and> focus_calls (emit_wc name args wc) = focus_calls wc"
  by (simp add: emit_wc_def Let_def)

text \<open>\<^verbatim>\<open>visibilityChanged\<close> on a window whose content surface is bound.\<close>

lemma visibilityChanged_bound:
  assumes "webContents this = Some wc"
  shows "visibilityChanged this =
     (None,
      if isVisible_var this = (nat_visible this \<and> \<not> nat_minimized this) then this
      else this\<lparr>isVisible_var := (nat_visible this \<and> \<not> nat_minimized this),
                webContents := Some (emit_wc ''-window-visibility-change''
                   [JStr (if nat_visible this \<and> \<not> nat_minimized this then ''visible'' else ''hidden'')] wc)\<rparr>)"
  using assms by (auto simp add: visibilityChanged_def Let_def isVisible_def isMinimized_def)

lemma visibilityChanged_var:
  "isVisible_var (snd (visibilityChanged this)) = (nat_visible this \<and> \<not> nat_minimized this)"
  by (auto simp add: visibilityChanged_def Let_def isVisible_def isMinimized_def split: option.splits)

lemma visibilityChanged_listeners:
  "win_listeners (snd (visibilityChanged this)) = win_listeners this"
  by (auto simp add: visibilityChanged_def Let_def split: option.splits)

lemma visibilityChanged_props:
  "own_props (snd (visibilityChanged this)) = own_props this"
  by (auto simp add: visibilityChanged_def Let_def split: option.splits)

section \<open>One input at a time\<close>

lemma apply_prop_op_only_props:
  "apply_prop_op operation this = this\<lparr>own_props := own_props (apply_prop_op operation this)\<rparr>"
  by (cases operation)
     (auto simp add: assign_property_def defineProperty_def delete_property_def
           split: option.splits property.splits)

lemma apply_prop_op_fields:
  "win_listeners (apply_prop_op operation this) = win_listeners this"
  "isVisible_var (apply_prop_op operation this) = isVisible_var this"
  "webContents (apply_prop_op operation this) = webContents this"
  by (subst apply_prop_op_only_props, simp)+

lemma step_window_installed:
  assumes "win_listeners this = installed_listeners"
  shows "step (WindowEvent name vis mini) this =
     (let this' = this\<lparr>nat_visible := vis, nat_minimized := mini\<rparr>
      in if name = ''blur'' then app_emit ''browser-window-blur'' this'
         else if name = ''focus'' then app_emit ''browser-window-focus'' this'
         else if name \<in> set visibilityEvents then snd (visibilityChanged this')
         else this')"
  using assms by (simp add: emit_win_installed Let_def)

lemma blur_focus_not_visibility:
  "''blur'' \<notin> set visibilityEvents" "''focus'' \<notin> set visibilityEvents"
  by (simp_all add: visibilityEvents_def)

lemma step_listeners:
  assumes "win_listeners this = installed_listeners"
  shows "win_listeners (step i this) = installed_listeners"
proof (cases i)
  case (WindowEvent name vis mini)
  then show ?thesis
    using assms
    by (simp add: step_window_installed Let_def app_emit_def visibilityChanged_listeners
             del: step.simps)
next
  case (ContentEvent name args)
  then show ?thesis using assms by (simp split: option.splits)
next
  case (Script operation)
  then show ?thesis using assms by (simp add: apply_prop_op_fields)
qed

lemma step_var:
  assumes "win_listeners this = installed_listeners"
  shows "isVisible_var (step i this) = last (isVisible_var this # observed [i])"
proof (cases i)
  case (WindowEvent name vis mini)
  then show ?thesis
    using assms blur_focus_not_visibility
    by (auto simp add: step_window_installed Let_def app_emit_def visibilityChanged_var
             simp del: step.simps)
next
  case (ContentEvent name args)
  then show ?thesis by (simp split: option.splits)
next
  case (Script operation)
  then show ?thesis by (simp add: apply_prop_op_fields)
qed

lemma observed_append: "observed (xs @ ys) = observed xs @ observed ys"
  by (induction xs rule: observed.induct) simp_all

lemma run_listeners_installed:
  "win_listeners this = installed_listeners \<Longrightarrow>
   win_listeners (run ins this) = installed_listeners"
  unfolding run_def
  by (induction ins arbitrary: this) (simp_all add: step_listeners del: step.simps)

lemma run_var:
  "win_listeners this = installed_listeners \<Longrightarrow>
   isVisible_var (run ins this) = last (isVisible_var this # observed ins)"
  unfolding run_def
proof (induction ins arbitrary: this)
  case Nil
  then show ?case by simp
next
  case (Cons i ins)
  have "isVisible_var (fold step ins (step i this)) =
          last (isVisible_var (step i this) # observed ins)"
    using Cons.IH [of "step i this"] step_listeners [OF Cons.prems] by simp
  also have "isVisible_var (step i this) = last (isVisible_var this # observed [i])"
    by (rule step_var [OF Cons.prems])
  finally show ?case
    using observed_append [of "[i]" ins] by (simp del: step.simps)
qed

section \<open>The visibility tracker: results\<close>

lemma notifications_emit:
  "webContents this = Some wc \<Longrightarrow>
   visibility_notifications (this\<lparr>webContents := Some (emit_wc name args wc)\<rparr>) =
     visibility_notifications this @ (if name = ''-window-visibility-change'' then [args] else [])"
  by (simp add: visibility_notifications_def emit_wc_emitted)

lemma notifications_fields:
  "visibility_notifications (this\<lparr>nat_visible := v, nat_minimized := m\<rparr>) = visibility_notifications this"
  "visibility_notifications (app_emit name this) = visibility_notifications this"
  "visibility_notifications (this\<lparr>isVisible_var := b\<rparr>) = visibility_notifications this"
  by (simp_all add: visibility_notifications_def app_emit_def)

lemma step_window_bound:
  assumes "win_listeners this = installed_listeners" and "webContents this = Some wc"
  shows "\<exists>wc'. webContents (step (WindowEvent name vis mini) this) = Some wc'"
  using assms
  by (auto simp add: step_window_installed Let_def app_emit_def visibilityChanged_bound
           simp del: step.simps)

lemma step_window_notifications:
  assumes "win_listeners this = installed_listeners" and "webContents this = Some wc"
  shows "visibility_notifications (step (WindowEvent name vis mini) this) =
     visibility_notifications this
     @ notifications_of (isVisible_var this) (observed [WindowEvent name vis mini])"
proof -
  let ?this' = "this\<lparr>nat_visible := vis, nat_minimized := mini\<rparr>"
  have b: "webContents ?this' = Some wc" using assms(2) by simp
  show ?thesis
  proof (cases "name \<in> set visibilityEvents")
    case True
    then have "step (WindowEvent name vis mini) this = snd (visibilityChanged ?this')"
      using assms(1) blur_focus_not_visibility
      by (auto simp add: step_window_installed Let_def simp del: step.simps)
    then show ?thesis
      using True b
      by (simp add: visibilityChanged_bound [OF b] notifications_emit notifications_fields
               del: step.simps)
  next
    case False
    then show ?thesis
      using assms(1)
      by (simp add: step_window_installed Let_def notifications_fields del: step.simps)
  qed
qed

lemma notifications_of_append:
  "notifications_of b (xs @ ys) = notifications_of b xs @ notifications_of (last (b # xs)) ys"
  by (induction xs arbitrary: b) simp_all

lemma run_window_notifications:
  "win_listeners this = installed_listeners \<Longrightarrow> webContents this = Some wc \<Longrightarrow>
   visibility_notifications (run (window_events evs) this) =
     visibility_notifications this
     @ notifications_of (isVisible_var this) (observed (window_events evs))"
proof (induction evs arbitrary: this wc)
  case Nil
  then show ?case by (simp add: run_def window_events_def)
next
  case (Cons ev evs)
  obtain name vis mini where ev: "ev = (name, vis, mini)" by (cases ev)
  let ?i = "WindowEvent name vis mini"
  obtain wc' where b: "webContents (step ?i this) = Some wc'"
    using step_window_bound [OF Cons.prems] by blast
  have l: "win_listeners (step ?i this) = installed_listeners"
    by (rule step_listeners [OF Cons.prems(1)])
  have parts: "window_events (ev # evs) = [?i] @ window_events evs"
    by (simp add: window_events_def ev)
  have "visibility_notifications (run (window_events (ev # evs)) this) =
          visibility_notifications (run (window_events evs) (step ?i this))"
    by (simp add: run_def window_events_def ev del: step.simps)
  also have "\<dots> = visibility_notifications (step ?i this)
       @ notifications_of (isVisible_var (step ?i this)) (observed (window_events evs))"
    by (rule Cons.IH [OF l b])
  also have "visibility_notifications (step ?i this) =
       visibility_notifications this @ notifications_of (isVisible_var this) (observed [?i])"
    by (rule step_window_notifications [OF Cons.prems])
  also have "isVisible_var (step ?i this) = last (isVisible_var this # observed [?i])"
    by (rule step_var [OF Cons.prems(1)])
  finally show ?case
    unfolding parts observed_append notifications_of_append by simp
qed

lemma notifications_of_same:
  "\<forall>b\<in>set xs. b = c \<Longrightarrow> notifications_of c xs = []"
  by (induction xs) simp_all

lemma init_win0: "fresh win0 \<and> init win0 = Inr win_ready"
proof -
  have f: "fresh win0" by (simp add: fresh_def win0_def wc0_def)
  have b: "webContents win0 = Some wc0" by (simp add: win0_def)
  show ?thesis
    using f by (simp add: init_fresh [OF f b] win_ready_def) (simp add: win0_def)
qed

lemma init_installed:
  assumes "fresh w0" and "init w0 = Inr w"
  shows "win_listeners w = installed_listeners"
    and "isVisible_var w = (isVisible w0 \<and> \<not> isMinimized w0)"
    and "\<exists>wc. webContents w0 = Some wc
            \<and> webContents w = Some (wc\<lparr>wc_listeners := [(''load-url'', True, FocusThis)]\<rparr>)"
    and "own_props w ''devToolsWebContents'' = Some installed_property"
proof -
  obtain wc where b: "webContents w0 = Some wc" using init_Inr_bound [OF assms(2)] by blast
  note e = init_fresh [OF assms(1) b]
  from e assms(2) show "win_listeners w = installed_listeners" by auto
  from e assms(2) show "isVisible_var w = (isVisible w0 \<and> \<not> isMinimized w0)"
    by (auto simp add: isVisible_def isMinimized_def)
  from e assms(2) b show "\<exists>wc. webContents w0 = Some wc
            \<and> webContents w = Some (wc\<lparr>wc_listeners := [(''load-url'', True, FocusThis)]\<rparr>)"
    by auto
  from e assms(2) show "own_props w ''devToolsWebContents'' = Some installed_property" by auto
qed

lemma run_bound:
  "win_listeners this = installed_listeners \<Longrightarrow> webContents this = Some wc \<Longrightarrow>
   \<exists>wc'. webContents (run (window_events evs) this) = Some wc'"
proof (induction evs arbitrary: this wc)
  case Nil
  then show ?case by (simp add: run_def window_events_def)
next
  case (Cons ev evs)
  obtain name vis mini where ev: "ev = (name, vis, mini)" by (cases ev)
  obtain wc' where b: "webContents (step (WindowEvent name vis mini) this) = Some wc'"
    using step_window_bound [OF Cons.prems] by blast
  have l: "win_listeners (step (WindowEvent name vis mini) this) = installed_listeners"
    by (rule step_listeners [OF Cons.prems(1)])
  show ?case
    using Cons.IH [OF l b] by (simp add: run_def window_events_def ev del: step.simps)
qed

lemma step_window_same:
  assumes "win_listeners this = installed_listeners" and "webContents this = Some wc"
    and "name \<in> set visibilityEvents" and "(vis \<and> \<not> mini) = isVisible_var this"
  shows "webContents (step (WindowEvent name vis mini) this) = webContents this"
proof -
  let ?this' = "this\<lparr>nat_visible := vis, nat_minimized := mini\<rparr>"
  have b: "webContents ?this' = Some wc" using assms(2) by simp
  have "step (WindowEvent name vis mini) this = snd (visibilityChanged ?this')"
    using assms(1,3) blur_focus_not_visibility
    by (auto simp add: step_window_installed Let_def simp del: step.simps)
  then show ?thesis
    using assms(4) by (auto simp add: visibilityChanged_bound [OF b] simp del: step.simps)
qed

text \<open>
  Claim C1, as the code has it. Take a fresh window after \<^verbatim>\<open>_init\<close> and any
  sequence of window events. On each of the events show, hide, minimize, maximize and
  restore the tracker recomputes \<open>isVisible \<and> \<not> isMinimized\<close> and stores it in the
  closure variable; when the value differs from the stored one the content surface
  receives exactly one more \<^verbatim>\<open>-window-visibility-change\<close>, carrying
  \<^verbatim>\<open>visible\<close> for true and \<^verbatim>\<open>hidden\<close> for false, and when it is equal the
  content surface is left as it was. Over the whole sequence the content surface
  receives one notification for each observed value that differs from the one before
  it; so a sequence in which every visibility event observes the value stored at the
  start produces none.
\<close>

theorem visibility_tracker_transitions:
  assumes "fresh w0" and "init w0 = Inr w"
  shows "(name \<in> set visibilityEvents \<longrightarrow>
           isVisible_var (step (WindowEvent name vis mini) (run (window_events evs) w))
             = (vis \<and> \<not> mini)
         \<and> visibility_notifications (step (WindowEvent name vis mini) (run (window_events evs) w))
             = visibility_notifications (run (window_events evs) w)
               @ (if (vis \<and> \<not> mini) \<noteq> isVisible_var (run (window_events evs) w)
                  then [[JStr (if vis \<and> \<not> mini then ''visible'' else ''hidden'')]] else [])
         \<and> ((vis \<and> \<not> mini) = isVisible_var (run (window_events evs) w) \<longrightarrow>
              webContents (step (WindowEvent name vis mini) (run (window_events evs) w))
                = webContents (run (window_events evs) w)))
     \<and> visibility_notifications (run (window_events evs) w)
         = visibility_notifications w
           @ notifications_of (isVisible_var w) (observed (window_events evs))
     \<and> ((\<forall>b\<in>set (observed (window_events evs)). b = isVisible_var w) \<longrightarrow>
          visibility_notifications (run (window_events evs) w) = visibility_notifications w)"
proof -
  let ?s = "run (window_events evs) w"
  have l: "win_listeners w = installed_listeners"
    by (rule init_installed(1) [OF assms])
  obtain wc where b: "webContents w = Some wc"
    using init_installed(3) [OF assms] by blast
  have ls: "win_listeners ?s = installed_listeners"
    by (rule run_listeners_installed [OF l])
  obtain wcs where bs: "webContents ?s = Some wcs"
    using run_bound [OF l b] by blast
  have seq: "visibility_notifications ?s
       = visibility_notifications w @ notifications_of (isVisible_var w) (observed (window_events evs))"
    by (rule run_window_notifications [OF l b])
  have one: "name \<in> set visibilityEvents \<Longrightarrow>
      isVisible_var (step (WindowEvent name vis mini) ?s) = (vis \<and> \<not> mini)"
    using step_var [OF ls, of "WindowEvent name vis mini"] by (simp del: step.simps)
  have two: "name \<in> set visibilityEvents \<Longrightarrow>
      visibility_notifications (step (WindowEvent name vis mini) ?s)
        = visibility_notifications ?s
          @ (if (vis \<and> \<not> mini) \<noteq> isVisible_var ?s
             then [[JStr (if vis \<and> \<not> mini then ''visible'' else ''hidden'')]] else [])"
    using step_window_notifications [OF ls bs, of name vis mini] by (simp del: step.simps)
  have three: "name \<in> set visibilityEvents \<Longrightarrow> (vis \<and> \<not> mini) = isVisible_var ?s \<Longrightarrow>
      webContents (step (WindowEvent name vis mini) ?s) = webContents ?s"
    by (rule step_window_same [OF ls bs])
  have zero: "\<forall>b\<in>set (observed (window_events evs)). b = isVisible_var w \<Longrightarrow>
      visibility_notifications ?s = visibility_notifications w"
    using seq by (simp add: notifications_of_same)
  from one two three seq zero show ?thesis by blast
qed

lemma win_ready_facts:
  "win_listeners win_ready = installed_listeners"
  "isVisible_var win_ready = True"
  "visibility_notifications win_ready = []"
  "webContents win_ready = Some (wc0\<lparr>wc_listeners := [(''load-url'', True, FocusThis)]\<rparr>)"
  by (simp_all add: win_ready_def visibility_notifications_def wc0_def)

text \<open>
  On \<open>win0\<close>, visible after \<^verbatim>\<open>_init\<close>: a hide that hides the window followed by a
  show that shows it gives \<^verbatim>\<open>hidden\<close> then \<^verbatim>\<open>visible\<close>; a maximize and a
  restore that leave it visible give nothing.
\<close>

theorem visibility_tracker_transitions_witness:
  "fresh win0 \<and> init win0 = Inr win_ready
   \<and> ''show'' \<in> set visibilityEvents
   \<and> visibility_notifications
        (step (WindowEvent ''show'' True False)
           (run (window_events [(''hide'', False, False)]) win_ready))
       = [[JStr ''hidden''], [JStr ''visible'']]
   \<and> visibility_notifications
        (run (window_events [(''maximize'', True, False), (''restore'', True, False)]) win_ready)
       = []"
proof -
  have f: "fresh win0" and i: "init win0 = Inr win_ready"
    using init_win0 by simp_all
  have m: "''show'' \<in> set visibilityEvents" by (simp add: visibilityEvents_def)
  have v: "isVisible_var (run (window_events [(''hide'', False, False)]) win_ready) = False"
    by (simp add: run_var win_ready_facts window_events_def visibilityEvents_def)
  from visibility_tracker_transitions [OF f i, of "''show''" True False "[(''hide'', False, False)]"]
       visibility_tracker_transitions [OF f i, of "''show''" True False
          "[(''maximize'', True, False), (''restore'', True, False)]"]
       f i m v
  show ?thesis
    by (simp add: win_ready_facts window_events_def visibilityEvents_def del: step.simps)
qed

text \<open>
  The claim as the spec states it promises no notification when the net effect of a
  sequence leaves the derived value unchanged. Hide followed by show leaves it
  unchanged, true before and true after, and the content surface has received two
  notifications.
\<close>

theorem visibility_net_effect_counterexample:
  "init win0 = Inr win_ready
   \<and> (isVisible win_ready \<and> \<not> isMinimized win_ready) = True
   \<and> (isVisible (run (window_events [(''hide'', False, False), (''show'', True, False)]) win_ready)
       \<and> \<not> isMinimized (run (window_events [(''hide'', False, False), (''show'', True, False)]) win_ready))
      = True
   \<and> visibility_notifications
        (run (window_events [(''hide'', False, False), (''show'', True, False)]) win_ready)
       = [[JStr ''hidden''], [JStr ''visible'']]"
proof -
  let ?evs = "[(''hide'', False, False), (''show'', True, False)]"
  have a: "init win0 = Inr win_ready"
    using init_win0 by simp
  have b: "(isVisible win_ready \<and> \<not> isMinimized win_ready) = True"
    by (simp add: win_ready_def win0_def isVisible_def isMinimized_def)
  have n: "visibility_notifications (run (window_events ?evs) win_ready)
       = [[JStr ''hidden''], [JStr ''visible'']]"
    using run_window_notifications [OF win_ready_facts(1) win_ready_facts(4), of ?evs]
    by (simp add: win_ready_facts window_events_def visibilityEvents_def)
  have s: "run (window_events ?evs) win_ready
      = step (WindowEvent ''show'' True False) (step (WindowEvent ''hide'' False False) win_ready)"
    by (simp add: run_def window_events_def del: step.simps)
  have l: "win_listeners (step (WindowEvent ''hide'' False False) win_ready) = installed_listeners"
    by (rule step_listeners [OF win_ready_facts(1)])
  have c: "(isVisible (run (window_events ?evs) win_ready)
       \<and> \<not> isMinimized (run (window_events ?evs) win_ready)) = True"
    unfolding s
    by (simp add: step_window_installed [OF l] Let_def visibilityEvents_def isVisible_def
          isMinimized_def visibilityChanged_def del: step.simps split: option.splits)
  from a b c n show ?thesis by blast
qed

text \<open>
  Claim C3. The closure variable \<^verbatim>\<open>isVisible\<close> of a fresh window is, after
  \<^verbatim>\<open>_init\<close>, the value of \<open>isVisible \<and> \<not> isMinimized\<close> at binding time, and after
  any sequence of inputs it is the value observed by the most recent of the events
  show, hide, minimize, maximize, restore (the value at binding time when there was
  none).
\<close>

theorem cached_visibility_invariant:
  assumes "fresh w0" and "init w0 = Inr w"
  shows "isVisible_var w = (isVisible w0 \<and> \<not> isMinimized w0)
     \<and> isVisible_var (run ins w) = last ((isVisible w0 \<and> \<not> isMinimized w0) # observed ins)"
  using run_var [OF init_installed(1) [OF assms], of ins] init_installed(2) [OF assms]
  by simp

text \<open>
  On \<open>win0\<close>: after a hide the variable is false, and a focus event or a content
  event does not touch it; after a hide and a restore that shows the window it is true.
\<close>

theorem cached_visibility_invariant_witness:
  "fresh win0 \<and> init win0 = Inr win_ready
   \<and> isVisible_var win_ready = True
   \<and> isVisible_var (run [WindowEvent ''hide'' False False, WindowEvent ''focus'' True False,
                          ContentEvent ''load-url'' []] win_ready) = False
   \<and> isVisible_var (run [WindowEvent ''hide'' False False, WindowEvent ''restore'' True False]
                      win_ready) = True"
proof -
  have f: "fresh win0" and i: "init win0 = Inr win_ready"
    using init_win0 by simp_all
  from cached_visibility_invariant [OF f i, of "[WindowEvent ''hide'' False False,
           WindowEvent ''focus'' True False, ContentEvent ''load-url'' []]"]
       cached_visibility_invariant [OF f i, of "[WindowEvent ''hide'' False False,
           WindowEvent ''restore'' True False]"] f i
  show ?thesis
    by (simp add: visibilityEvents_def isVisible_def isMinimized_def win0_def)
qed

section \<open>The one-shot focus: results\<close>

lemma step_focus:
  assumes "win_listeners this = installed_listeners" and "webContents this = Some wc"
    and "wc_listeners wc = [] \<or> wc_listeners wc = [(''load-url'', True, FocusThis)]"
  shows "\<exists>wc'. webContents (step i this) = Some wc'
           \<and> wc_listeners wc' = (if is_load_url i then [] else wc_listeners wc)
           \<and> focus_calls wc' =
               (if is_load_url i \<and> wc_listeners wc \<noteq> [] then Suc (focus_calls wc)
                else focus_calls wc)"
proof (cases i)
  case (WindowEvent name vis mini)
  let ?this' = "this\<lparr>nat_visible := vis, nat_minimized := mini\<rparr>"
  have b: "webContents ?this' = Some wc" using assms(2) by simp
  have n: "''-window-visibility-change'' \<noteq> ''load-url''" by simp
  show ?thesis
    using assms(3) emit_wc_pending [of wc "''-window-visibility-change''"]
      emit_wc_done [of wc "''-window-visibility-change''"]
    by (auto simp add: WindowEvent step_window_installed [OF assms(1)] Let_def app_emit_def
          assms(2) visibilityChanged_bound [OF b] simp del: step.simps)
next
  case (ContentEvent name args)
  show ?thesis
    using assms(3) emit_wc_pending [of wc name args] emit_wc_done [of wc name args]
    by (auto simp add: ContentEvent assms(2))
next
  case (Script operation)
  then show ?thesis using assms(2) by (simp add: apply_prop_op_fields)
qed

lemma run_focus:
  "win_listeners this = installed_listeners \<Longrightarrow> webContents this = Some wc \<Longrightarrow>
   wc_listeners wc = [] \<or> wc_listeners wc = [(''load-url'', True, FocusThis)] \<Longrightarrow>
   \<exists>wc'. webContents (run ins this) = Some wc'
      \<and> wc_listeners wc' = (if list_ex is_load_url ins then [] else wc_listeners wc)
      \<and> focus_calls wc' =
          (if list_ex is_load_url ins \<and> wc_listeners wc \<noteq> [] then Suc (focus_calls wc)
           else focus_calls wc)"
proof (induction ins arbitrary: this wc)
  case Nil
  then show ?case by (simp add: run_def)
next
  case (Cons i ins)
  obtain wca where s: "webContents (step i this) = Some wca"
      "wc_listeners wca = (if is_load_url i then [] else wc_listeners wc)"
      "focus_calls wca = (if is_load_url i \<and> wc_listeners wc \<noteq> [] then Suc (focus_calls wc)
                          else focus_calls wc)"
    using step_focus [OF Cons.prems, of i] by blast
  have l: "win_listeners (step i this) = installed_listeners"
    by (rule step_listeners [OF Cons.prems(1)])
  have k: "wc_listeners wca = [] \<or> wc_listeners wca = [(''load-url'', True, FocusThis)]"
    using s(2) Cons.prems(3) by auto
  obtain wcb where r: "webContents (run ins (step i this)) = Some wcb"
      "wc_listeners wcb = (if list_ex is_load_url ins then [] else wc_listeners wca)"
      "focus_calls wcb = (if list_ex is_load_url ins \<and> wc_listeners wca \<noteq> []
                          then Suc (focus_calls wca) else focus_calls wca)"
    using Cons.IH [OF l s(1) k] by blast
  have "run (i # ins) this = run ins (step i this)"
    by (simp add: run_def del: step.simps)
  then show ?case
    using r s by (auto simp del: step.simps)
qed

text \<open>
  Claim C4. \<^verbatim>\<open>_init\<close> registers one one-shot listener for \<^verbatim>\<open>load-url\<close> on the
  content surface of a fresh window. After any sequence of inputs the content surface
  has been focused by it once if a \<^verbatim>\<open>load-url\<close> occurred in the sequence and not
  at all if none did; the listener is gone from the first occurrence on and still
  registered before it. The statement holds for every sequence, so for every prefix
  of one: the single call happens at the first occurrence and no later one adds to it.
\<close>

theorem load_url_focuses_once:
  assumes "fresh w0" and "init w0 = Inr w"
  shows "focus_count (run ins w) = focus_count w0 + (if list_ex is_load_url ins then 1 else 0)
     \<and> (\<exists>wc. webContents (run ins w) = Some wc
           \<and> wc_listeners wc =
               (if list_ex is_load_url ins then [] else [(''load-url'', True, FocusThis)]))"
proof -
  obtain wc where b: "webContents w0 = Some wc"
      "webContents w = Some (wc\<lparr>wc_listeners := [(''load-url'', True, FocusThis)]\<rparr>)"
    using init_installed(3) [OF assms] by blast
  let ?wc = "wc\<lparr>wc_listeners := [(''load-url'', True, FocusThis)]\<rparr>"
  have k: "wc_listeners ?wc = [] \<or> wc_listeners ?wc = [(''load-url'', True, FocusThis)]"
    by simp
  obtain wc' where r: "webContents (run ins w) = Some wc'"
      "wc_listeners wc' = (if list_ex is_load_url ins then [] else wc_listeners ?wc)"
      "focus_calls wc' = (if list_ex is_load_url ins \<and> wc_listeners ?wc \<noteq> []
                          then Suc (focus_calls ?wc) else focus_calls ?wc)"
    using run_focus [OF init_installed(1) [OF assms] b(2) k, of ins] by blast
  show ?thesis
    using r b by (simp add: focus_count_def)
qed

text \<open>
  On \<open>win0\<close>: two \<^verbatim>\<open>load-url\<close> events among window events give one call of
  \<^verbatim>\<open>focus\<close>; window events alone give none.
\<close>

theorem load_url_focuses_once_witness:
  "fresh win0 \<and> init win0 = Inr win_ready
   \<and> focus_count (run [WindowEvent ''show'' True False, ContentEvent ''load-url'' [],
                        ContentEvent ''load-url'' [], WindowEvent ''focus'' True False] win_ready) = 1
   \<and> focus_count (run [WindowEvent ''show'' True False, WindowEvent ''focus'' True False]
                    win_ready) = 0"
proof -
  have f: "fresh win0" and i: "init win0 = Inr win_ready"
    using init_win0 by simp_all
  have z: "focus_count win0 = 0" by (simp add: focus_count_def win0_def wc0_def)
  from load_url_focuses_once [OF f i, of "[WindowEvent ''show'' True False,
          ContentEvent ''load-url'' [], ContentEvent ''load-url'' [], WindowEvent ''focus'' True False]"]
       load_url_focuses_once [OF f i, of "[WindowEvent ''show'' True False,
          WindowEvent ''focus'' True False]"] f i z
  show ?thesis by simp
qed

section \<open>The devToolsWebContents property: results\<close>

lemma installed_property_refuses:
  "\<not> rejected installed_property d \<Longrightarrow> \<not> (is_accessor_desc d \<and> is_data_desc d) \<Longrightarrow>
   apply_descriptor installed_property d = installed_property"
  by (auto simp add: rejected_def installed_property_def apply_descriptor_def or_default_def
        is_accessor_desc_def split: option.splits)

lemma apply_prop_op_keeps:
  assumes "own_props this ''devToolsWebContents'' = Some installed_property"
  shows "own_props (apply_prop_op operation this) ''devToolsWebContents'' = Some installed_property"
proof (cases operation)
  case (Assign strict name v)
  then show ?thesis
    using assms
    by (auto simp add: assign_property_def installed_property_def
          split: option.splits property.splits)
next
  case (Define name d)
  then show ?thesis
    using assms installed_property_refuses [of d]
    by (auto simp add: defineProperty_def split: option.splits)
next
  case (Delete strict name)
  then show ?thesis
    using assms
    by (auto simp add: delete_property_def installed_property_def split: option.splits)
qed

lemma step_keeps_property:
  assumes "win_listeners this = installed_listeners"
    and "own_props this ''devToolsWebContents'' = Some installed_property"
  shows "own_props (step i this) ''devToolsWebContents'' = Some installed_property"
proof (cases i)
  case (WindowEvent name vis mini)
  then show ?thesis
    using assms(2)
    by (simp add: step_window_installed [OF assms(1)] Let_def app_emit_def
          visibilityChanged_props del: step.simps)
next
  case (ContentEvent name args)
  then show ?thesis using assms(2) by (simp split: option.splits)
next
  case (Script operation)
  then show ?thesis using apply_prop_op_keeps [OF assms(2)] by simp
qed

lemma run_keeps_property:
  "win_listeners this = installed_listeners \<Longrightarrow>
   own_props this ''devToolsWebContents'' = Some installed_property \<Longrightarrow>
   own_props (run ins this) ''devToolsWebContents'' = Some installed_property"
  unfolding run_def
  by (induction ins arbitrary: this)
     (simp_all add: step_listeners step_keeps_property del: step.simps)

lemma read_installed:
  "own_props this ''devToolsWebContents'' = Some installed_property \<Longrightarrow>
   webContents this = Some wc \<Longrightarrow>
   read_property ''devToolsWebContents'' this = Inr (devToolsWebContents wc)"
  by (simp add: read_property_def installed_property_def on_webContents_def)

text \<open>
  Claim C10. After \<^verbatim>\<open>_init\<close> of a fresh window, and after any sequence of events,
  assignments, redefinitions and deletions, \<^verbatim>\<open>devToolsWebContents\<close> is still the own
  accessor property that \<^verbatim>\<open>_init\<close> defined: the getter of line 71, no setter,
  enumerable, not configurable. Reading it returns the \<^verbatim>\<open>devToolsWebContents\<close> of
  whatever content surface the window has at that moment. An assignment throws in
  strict code and does nothing in sloppy code, a delete is refused, and a
  \<^verbatim>\<open>defineProperty\<close> with another getter or with a setter throws.
\<close>

theorem devToolsWebContents_read_only:
  assumes "fresh w0" and "init w0 = Inr w"
  shows "own_props (run ins w) ''devToolsWebContents''
           = Some (Accessor (Some GetDevToolsWebContents) None True False)
     \<and> (\<exists>wc'. webContents (run ins w) = Some wc'
           \<and> read_property ''devToolsWebContents'' (run ins w) = Inr (devToolsWebContents wc'))
     \<and> read_property ''devToolsWebContents'' ((run ins w)\<lparr>webContents := Some wc\<rparr>)
           = Inr (devToolsWebContents wc)
     \<and> assign_property True ''devToolsWebContents'' v (run ins w) = Inl TypeError
     \<and> assign_property False ''devToolsWebContents'' v (run ins w) = Inr (run ins w)
     \<and> delete_property True ''devToolsWebContents'' (run ins w) = Inl TypeError
     \<and> defineProperty ''devToolsWebContents''
          (devToolsWebContents_descriptor\<lparr>d_get := Some (Some (GetConst v))\<rparr>) (run ins w)
         = Inl TypeError
     \<and> defineProperty ''devToolsWebContents''
          (devToolsWebContents_descriptor\<lparr>d_set := Some (Some s)\<rparr>) (run ins w)
         = Inl TypeError"
proof -
  have p: "own_props (run ins w) ''devToolsWebContents'' = Some installed_property"
    by (rule run_keeps_property [OF init_installed(1) [OF assms] init_installed(4) [OF assms]])
  have r: "read_property ''devToolsWebContents'' ((run ins w)\<lparr>webContents := Some wc\<rparr>)
           = Inr (devToolsWebContents wc)"
    by (rule read_installed) (simp_all add: p)
  obtain wc0' where b0: "webContents w = Some wc0'" "wc_listeners wc0' = [(''load-url'', True, FocusThis)]"
    using init_installed(3) [OF assms] by auto
  obtain wc' where b: "webContents (run ins w) = Some wc'"
    using run_focus [OF init_installed(1) [OF assms] b0(1), of ins] b0(2) by auto
  have q: "\<exists>wc'. webContents (run ins w) = Some wc'
           \<and> read_property ''devToolsWebContents'' (run ins w) = Inr (devToolsWebContents wc')"
    using read_installed [OF p b] b by simp
  show ?thesis
    using p r q
    by (simp add: installed_property_def assign_property_def delete_property_def
          defineProperty_def rejected_def devToolsWebContents_descriptor_def
          is_accessor_desc_def is_data_desc_def)
qed

text \<open>
  On \<open>win0\<close>: after an assignment, a delete and a redefinition as a data property,
  each refused, the property still reads the content surface's value.
\<close>

theorem devToolsWebContents_read_only_witness:
  "fresh win0 \<and> init win0 = Inr win_ready
   \<and> read_property ''devToolsWebContents''
        ((run [Script (Assign False ''devToolsWebContents'' (JNum 1)),
               Script (Delete False ''devToolsWebContents''),
               Script (Define ''devToolsWebContents''
                  \<lparr>d_get = None, d_set = None, d_value = Some (JNum 1), d_writable = None,
                   d_enumerable = None, d_configurable = None\<rparr>)] win_ready)
           \<lparr>webContents := Some wc0\<rparr>)
       = Inr (JObj 70)"
proof -
  have f: "fresh win0" and i: "init win0 = Inr win_ready"
    using init_win0 by simp_all
  from devToolsWebContents_read_only [OF f i,
         of "[Script (Assign False ''devToolsWebContents'' (JNum 1)),
              Script (Delete False ''devToolsWebContents''),
              Script (Define ''devToolsWebContents''
                  \<lparr>d_get = None, d_set = None, d_value = Some (JNum 1), d_writable = None,
                   d_enumerable = None, d_configurable = None\<rparr>)]" wc0] f i
  show ?thesis by (simp add: wc0_def)
qed

end
